theory Spec2Isabelle
  imports Main "HOL-Library.Word"
begin

section \<open>Go values used by web.go\<close>

text \<open>
  A Go \<open>string\<close> is a sequence of bytes, and \<open>len\<close> counts bytes: it is modelled
  as \<open>string\<close> (a list of 8-bit characters), \<open>len\<close> as \<open>length\<close>. Go's \<open>int32\<close>
  is \<open>32 word\<close>; Go's \<open>int\<close> is taken to be 64 bits wide and modelled as \<open>int\<close>,
  with the one place where it is narrowed (\<open>int32(x)\<close>) written as \<open>word_of_int\<close>
  and the one place where it is produced (\<open>strconv.Atoi\<close>) clamped to 64 bits.
\<close>

type_synonym int32 = "32 word"
type_synonym rune = nat

datatype error = errors_New string | external_error string

subsection \<open>Package unicode/utf8\<close>

definition RuneError :: rune where
  "RuneError = 0xFFFD"

definition is_cont :: "nat \<Rightarrow> bool" where
  "is_cont b = (0x80 \<le> b \<and> b \<le> 0xBF)"

text \<open>\<open>utf8.DecodeRune\<close>: the first rune of a byte sequence and its width; an
  invalid or truncated encoding is \<open>RuneError\<close> of width 1.\<close>

definition DecodeRune :: "nat list \<Rightarrow> rune \<times> nat" where
  "DecodeRune bytes =
    (case bytes of
       [] \<Rightarrow> (RuneError, 0)
     | b0 # bs \<Rightarrow>
        if b0 < 0x80 then (b0, 1)
        else if 0xC2 \<le> b0 \<and> b0 \<le> 0xDF then
          (case bs of
             b1 # _ \<Rightarrow>
               if is_cont b1 then ((b0 mod 32) * 64 + b1 mod 64, 2) else (RuneError, 1)
           | _ \<Rightarrow> (RuneError, 1))
        else if 0xE0 \<le> b0 \<and> b0 \<le> 0xEF then
          (case bs of
             b1 # b2 # _ \<Rightarrow>
               if (if b0 = 0xE0 then 0xA0 else 0x80) \<le> b1
                  \<and> b1 \<le> (if b0 = 0xED then 0x9F else 0xBF) \<and> is_cont b2
               then ((b0 mod 16) * 4096 + (b1 mod 64) * 64 + b2 mod 64, 3)
               else (RuneError, 1)
           | _ \<Rightarrow> (RuneError, 1))
        else if 0xF0 \<le> b0 \<and> b0 \<le> 0xF4 then
          (case bs of
             b1 # b2 # b3 # _ \<Rightarrow>
               if (if b0 = 0xF0 then 0x90 else 0x80) \<le> b1
                  \<and> b1 \<le> (if b0 = 0xF4 then 0x8F else 0xBF) \<and> is_cont b2 \<and> is_cont b3
               then ((b0 mod 8) * 262144 + (b1 mod 64) * 4096 + (b2 mod 64) * 64 + b3 mod 64, 4)
               else (RuneError, 1)
           | _ \<Rightarrow> (RuneError, 1))
        else (RuneError, 1))"

text \<open>\<open>utf8.EncodeRune\<close>; a surrogate or a value beyond U+10FFFF is written as
  \<open>RuneError\<close>.\<close>

definition EncodeRune :: "rune \<Rightarrow> nat list" where
  "EncodeRune r =
    (if r < 0x80 then [r]
     else if r < 0x800 then [0xC0 + r div 64, 0x80 + r mod 64]
     else if r > 0x10FFFF \<or> (0xD800 \<le> r \<and> r \<le> 0xDFFF) then [0xEF, 0xBF, 0xBD]
     else if r < 0x10000 then
       [0xE0 + r div 4096, 0x80 + (r div 64) mod 64, 0x80 + r mod 64]
     else
       [0xF0 + r div 262144, 0x80 + (r div 4096) mod 64, 0x80 + (r div 64) mod 64,
        0x80 + r mod 64])"

text \<open>\<open>for _, c := range s\<close>: the runes of a string from left to right, each with
  the bytes it was decoded from.\<close>

fun runes :: "string \<Rightarrow> (rune \<times> string) list" where
  "runes [] = []"
| "runes (c # cs) =
    (let w = snd (DecodeRune (map of_char (take 4 (c # cs)))) in
     (fst (DecodeRune (map of_char (take 4 (c # cs)))), c # take (w - 1) cs)
       # runes (drop (w - 1) cs))"

subsection \<open>Package unicode\<close>

text \<open>\<open>unicode.IsSpace\<close>: the Latin-1 cases of its switch, then the White_Space
  table.\<close>

definition IsSpace :: "rune \<Rightarrow> bool" where
  "IsSpace r =
    (if r \<le> 0xFF then
       r = 0x09 \<or> r = 0x0A \<or> r = 0x0B \<or> r = 0x0C \<or> r = 0x0D \<or> r = 0x20
       \<or> r = 0x85 \<or> r = 0xA0
     else
       r = 0x1680 \<or> (0x2000 \<le> r \<and> r \<le> 0x200A) \<or> r = 0x2028 \<or> r = 0x2029
       \<or> r = 0x202F \<or> r = 0x205F \<or> r = 0x3000)"

text \<open>\<open>unicode.ToLower\<close>: ASCII is decided in the function itself; every other
  rune goes through the case table of the Unicode version Go was built with, which is
  the parameter \<open>caseTable\<close> here.\<close>

definition unicode_ToLower :: "(rune \<Rightarrow> rune) \<Rightarrow> rune \<Rightarrow> rune" where
  "unicode_ToLower caseTable r =
    (if r \<le> 0x7F then (if 0x41 \<le> r \<and> r \<le> 0x5A then r + 0x20 else r)
     else caseTable r)"

subsection \<open>Package strings\<close>

definition HasPrefix :: "string \<Rightarrow> string \<Rightarrow> bool" where
  "HasPrefix s p = (take (length p) s = p)"

text \<open>\<open>strings.Contains(s, substr)\<close>: a byte-wise search from every position.\<close>

fun Contains :: "string \<Rightarrow> string \<Rightarrow> bool" where
  "Contains [] substr = (substr = [])"
| "Contains (c # cs) substr = (HasPrefix (c # cs) substr \<or> Contains cs substr)"

definition rune_is_space :: "rune \<times> string \<Rightarrow> bool" where
  "rune_is_space t = IsSpace (fst t)"

text \<open>\<open>strings.TrimSpace\<close>: leading and trailing white space runes removed.\<close>

definition TrimSpace :: "string \<Rightarrow> string" where
  "TrimSpace s =
     concat (map snd (rev (dropWhile rune_is_space (rev (dropWhile rune_is_space (runes s))))))"

text \<open>\<open>strings.ToLower\<close>, which is \<open>strings.Map(unicode.ToLower, s)\<close>: every rune
  is mapped and written back in UTF-8, an invalid byte as \<open>RuneError\<close>.\<close>

definition ToLower :: "(rune \<Rightarrow> rune) \<Rightarrow> string \<Rightarrow> string" where
  "ToLower caseTable s =
     concat (map (\<lambda>t. map char_of (EncodeRune (unicode_ToLower caseTable (fst t)))) (runes s))"

text \<open>\<open>strings.Fields\<close>: the maximal runs of runes that are not white space.\<close>

fun fields_loop :: "(rune \<times> string) list \<Rightarrow> string \<Rightarrow> string list" where
  "fields_loop [] cur = (if cur = [] then [] else [cur])"
| "fields_loop (t # ts) cur =
    (if IsSpace (fst t) then (if cur = [] then fields_loop ts [] else cur # fields_loop ts [])
     else fields_loop ts (cur @ snd t))"

definition Fields :: "string \<Rightarrow> string list" where
  "Fields s = fields_loop (runes s) []"

section \<open>The catalog\<close>

text \<open>
  The types \<open>Item\<close> and \<open>Group\<close> are declared outside web.go; the fields below are
  the ones web.go reads. \<open>s.Global.Items\<close> and \<open>s.Global.Groups\<close> are Go maps: each
  is modelled as the list of its entries in the order a \<open>range\<close> statement visits
  them, and an index expression \<open>m[k]\<close> yields the zero value for a missing key. Go
  leaves the order of a \<open>range\<close> over a map unspecified, so every result below is for
  an arbitrary list; where web.go ranges over the same map several times the model
  visits it in the same order each time.
\<close>

record Group =
  Name :: string
  ID :: int32
  Category :: int32

record Item =
  Name :: string
  ID :: int32
  Lower :: string
  Group :: int32

record Global =
  Items :: "(int32 \<times> Item) list"
  Groups :: "(int32 \<times> Group) list"

definition zero_Item :: Item where
  "zero_Item = \<lparr>Item.Name = [], Item.ID = 0, Lower = [], Group = 0\<rparr>"

definition zero_Group :: Group where
  "zero_Group = \<lparr>Group.Name = [], Group.ID = 0, Category = 0\<rparr>"

definition Items_at :: "Global \<Rightarrow> int32 \<Rightarrow> Item" where
  "Items_at G k = (case map_of (Items G) k of None \<Rightarrow> zero_Item | Some item \<Rightarrow> item)"

definition Groups_at :: "Global \<Rightarrow> int32 \<Rightarrow> Group" where
  "Groups_at G k = (case map_of (Groups G) k of None \<Rightarrow> zero_Group | Some g \<Rightarrow> g)"

section \<open>Search\<close>

record Result =
  Type :: string
  Name :: string
  ID :: int32

record search_ret =
  Search :: string
  Results :: "Result list"

definition searchCategories :: "int32 \<Rightarrow> string" where
  "searchCategories c =
    (if c = 6 then ''ship''
     else if c = 7 then ''item''
     else if c = 8 then ''item''
     else if c = 32 then ''item''
     else [])"

text \<open>The closure \<open>match\<close>; \<open>search\<close> is \<open>ret.Search\<close> and \<open>flds\<close> its \<open>fields\<close>.\<close>

fun containsAll :: "string \<Rightarrow> string list \<Rightarrow> bool" where
  "containsAll s [] = True"
| "containsAll s (term # rest) = (if \<not> Contains s term then False else containsAll s rest)"

definition match :: "string \<Rightarrow> string list \<Rightarrow> string \<Rightarrow> bool" where
  "match search flds s = (if Contains s search then True else containsAll s flds)"

text \<open>The loop over \<open>s.Global.Groups\<close>.\<close>

fun group_scan ::
  "(rune \<Rightarrow> rune) \<Rightarrow> string \<Rightarrow> string list \<Rightarrow> (int32 \<times> Group) list
    \<Rightarrow> Result list \<Rightarrow> Result list" where
  "group_scan caseTable search flds [] results = results"
| "group_scan caseTable search flds ((key, grp) # rest) results =
    (if \<not> match search flds (ToLower caseTable (Group.Name grp))
     then group_scan caseTable search flds rest results
     else group_scan caseTable search flds rest
            (results @ [\<lparr>Type = ''group'', Name = Group.Name grp, ID = key\<rparr>]))"

text \<open>The loop over \<open>s.Global.Items\<close>, with its \<open>break\<close>.\<close>

fun item_scan ::
  "Global \<Rightarrow> string \<Rightarrow> string list \<Rightarrow> (int32 \<times> Item) list \<Rightarrow> Result list \<Rightarrow> Result list" where
  "item_scan G search flds [] results = results"
| "item_scan G search flds ((key, item) # rest) results =
    (if \<not> match search flds (Lower item) then item_scan G search flds rest results
     else
       let typ = searchCategories (Category (Groups_at G (Group item)));
           results' = (if typ \<noteq> [] then results @ [\<lparr>Type = typ, Name = Item.Name item, ID = key\<rparr>]
                       else results)
       in if length results' > 50 then results' else item_scan G search flds rest results')"

text \<open>\<open>Search\<close> returns \<open>(interface{}, error)\<close>: the first component is \<open>None\<close> for
  a nil interface value, the second \<open>None\<close> for a nil error. The argument is
  \<open>r.FormValue("term")\<close>.\<close>

definition Search ::
  "(rune \<Rightarrow> rune) \<Rightarrow> Global \<Rightarrow> string \<Rightarrow> search_ret option \<times> error option" where
  "Search caseTable G term =
    (let search = ToLower caseTable (TrimSpace term) in
     if length search < 3 then (None, None)
     else
       let flds = Fields search;
           groups = group_scan caseTable search flds (Groups G) [];
           results = item_scan G search flds (Items G) groups
       in (Some \<lparr>search_ret.Search = search, Results = results\<rparr>, None))"

section \<open>Fits\<close>

subsection \<open>Package strconv and fmt\<close>

definition is_digit :: "char \<Rightarrow> bool" where
  "is_digit c = (48 \<le> (of_char c :: nat) \<and> (of_char c :: nat) \<le> 57)"

text \<open>The digit loop of \<open>strconv.ParseUint\<close> in base 10 on 64 bits: a byte that is
  not a digit is a syntax error (\<open>None\<close>); on overflow the loop stops at once with the
  largest value, without reading on.\<close>

fun ParseUint_digits :: "string \<Rightarrow> int \<Rightarrow> int option" where
  "ParseUint_digits [] n = Some n"
| "ParseUint_digits (c # cs) n =
    (if \<not> is_digit c then None
     else if n \<ge> (2 ^ 64 - 1) div 10 + 1 then Some (2 ^ 64 - 1)
     else if n * 10 + (of_char c - 48) > 2 ^ 64 - 1 then Some (2 ^ 64 - 1)
     else ParseUint_digits cs (n * 10 + (of_char c - 48)))"

text \<open>\<open>strconv.Atoi\<close>, of which web.go drops the error: an optional sign and decimal
  digits; 0 on a syntax error, the nearest 64-bit value on a range error.\<close>

definition Atoi :: "string \<Rightarrow> int" where
  "Atoi s =
    (let neg = (take 1 s = ''-'');
         ds = (if take 1 s = ''+'' \<or> take 1 s = ''-'' then drop 1 s else s)
     in if ds = [] then 0
        else case ParseUint_digits ds 0 of
               None \<Rightarrow> 0
             | Some un \<Rightarrow>
                 if \<not> neg \<and> un \<ge> 2 ^ 63 then 2 ^ 63 - 1
                 else if neg \<and> un > 2 ^ 63 then - (2 ^ 63)
                 else if neg then - un else un)"

definition digit_char :: "nat \<Rightarrow> char" where
  "digit_char d =
    (if d = 0 then CHR ''0'' else if d = 1 then CHR ''1'' else if d = 2 then CHR ''2''
     else if d = 3 then CHR ''3'' else if d = 4 then CHR ''4'' else if d = 5 then CHR ''5''
     else if d = 6 then CHR ''6'' else if d = 7 then CHR ''7'' else if d = 8 then CHR ''8''
     else CHR ''9'')"

text \<open>The verb \<open>%d\<close> of \<open>fmt.Fprintf\<close> on \<open>len(args)\<close>.\<close>

fun itoa :: "nat \<Rightarrow> string" where
  "itoa n = (if n < 10 then [digit_char n] else itoa (n div 10) @ [digit_char (n mod 10)])"

declare itoa.simps [simp del]

subsection \<open>The request and the query under construction\<close>

text \<open>\<open>r.Form\<close> is a \<open>url.Values\<close>, a map from a key to its values; a missing key
  has no values, and \<open>Get\<close> is the first value or the empty string.\<close>

type_synonym Values = "string \<Rightarrow> string list"

definition Get :: "Values \<Rightarrow> string \<Rightarrow> string" where
  "Get v key = (case v key of [] \<Rightarrow> [] | x # _ \<Rightarrow> x)"

text \<open>The values appended to \<open>args\<close>: an \<open>int\<close>, a \<open>pq.Array\<close> of \<open>[]int\<close>, an
  \<open>int32\<close> map key, and (in \<open>Fit\<close>) a string.\<close>

datatype arg = arg_int int | arg_int_array "int list" | arg_int32 int32 | arg_string string

text \<open>\<open>ret.Filter\<close>, a \<open>map[string][]Item\<close>, and the statement
  \<open>ret.Filter[k] = append(ret.Filter[k], item)\<close>.\<close>

type_synonym Filter = "string \<rightharpoonup> Item list"

definition Filter_append :: "Filter \<Rightarrow> string \<Rightarrow> Item \<Rightarrow> Filter" where
  "Filter_append flt k item = flt(k \<mapsto> (case flt k of None \<Rightarrow> [] | Some xs \<Rightarrow> xs) @ [item])"

definition tabs :: "nat \<Rightarrow> string" where
  "tabs n = replicate n (CHR 0x09)"

definition base_select :: string where
  "base_select = concat
    [''\<newline>'',
     tabs 2, ''SELECT\<newline>'',
     tabs 3, ''killmail,\<newline>'',
     tabs 3, ''ship,\<newline>'',
     tabs 3, ''cost,\<newline>'',
     tabs 3, ''hi AS hiraw,\<newline>'',
     tabs 3, ''med AS medraw,\<newline>'',
     tabs 3, ''low AS lowraw\<newline>'',
     tabs 2, ''FROM\<newline>'',
     tabs 3, ''fits\<newline>'',
     tabs 2, ''WHERE\<newline>'',
     tabs 3, ''TRUE\<newline>'',
     tabs 1]"

definition order_limit :: string where
  "order_limit = concat
    [''\<newline>'',
     tabs 2, ''ORDER BY\<newline>'',
     tabs 3, ''killmail DESC\<newline>'',
     tabs 2, ''LIMIT\<newline>'',
     tabs 3, ''100\<newline>'',
     tabs 1]"

text \<open>The state of the builder is \<open>(sb, args, ret.Filter)\<close>.\<close>

type_synonym builder = "string \<times> arg list \<times> Filter"

text \<open>The \<open>ship\<close> facet.\<close>

definition ship_facet :: "Global \<Rightarrow> string \<Rightarrow> builder \<Rightarrow> builder" where
  "ship_facet G v st =
    (case st of (sb, args, flt) \<Rightarrow>
       let ship = Atoi v in
       if ship > 0 then
         let args' = args @ [arg_int ship] in
         (sb @ '' AND items @> $'' @ itoa (length args'), args',
          Filter_append flt ''ship'' (Items_at G (word_of_int ship)))
       else (sb, args, flt))"

text \<open>The loop over \<open>r.Form["item"]\<close>, on \<open>(items, ret.Filter)\<close>, and the clause
  added after it.\<close>

fun item_loop :: "Global \<Rightarrow> string list \<Rightarrow> int list \<times> Filter \<Rightarrow> int list \<times> Filter" where
  "item_loop G [] st = st"
| "item_loop G (v # vs) (items, flt) =
    (let itemid = Atoi v in
     if itemid \<le> 0 then item_loop G vs (items, flt)
     else item_loop G vs
            (items @ [itemid], Filter_append flt ''item'' (Items_at G (word_of_int itemid))))"

definition item_facet :: "Global \<Rightarrow> string list \<Rightarrow> builder \<Rightarrow> builder" where
  "item_facet G vs st =
    (case st of (sb, args, flt) \<Rightarrow>
       case item_loop G vs ([], flt) of (items, flt') \<Rightarrow>
         if length items > 0 then
           let args' = args @ [arg_int_array items] in
           (sb @ '' AND items @> array_to_json($'' @ itoa (length args') @ ''::int[])'', args', flt')
         else (sb, args, flt'))"

text \<open>The loop over \<open>s.Global.Items\<close> inside the \<open>group\<close> facet, on
  \<open>(sb, args, or)\<close>.\<close>

fun member_loop ::
  "int32 \<Rightarrow> (int32 \<times> Item) list \<Rightarrow> string \<times> arg list \<times> string \<Rightarrow> string \<times> arg list \<times> string" where
  "member_loop gid [] st = st"
| "member_loop gid ((key, item) # rest) (sb, args, or') =
    (if Group item \<noteq> gid then member_loop gid rest (sb, args, or')
     else
       let args' = args @ [arg_int32 key] in
       member_loop gid rest (sb @ or' @ '' items @> $'' @ itoa (length args'), args', '' OR ''))"

text \<open>The loop over \<open>r.Form["group"]\<close>.\<close>

fun group_loop :: "Global \<Rightarrow> string list \<Rightarrow> builder \<Rightarrow> builder" where
  "group_loop G [] st = st"
| "group_loop G (v # vs) (sb, args, flt) =
    (let groupid = Atoi v in
     if groupid \<le> 0 then group_loop G vs (sb, args, flt)
     else
       let gid = (word_of_int groupid :: int32);
           st' = member_loop gid (Items G) (sb @ '' AND ('', args, []);
           g = Groups_at G gid
       in group_loop G vs
            (fst st' @ '')'', fst (snd st'),
             Filter_append flt ''group''
               \<lparr>Item.Name = Group.Name g, Item.ID = Group.ID g, Lower = [], Group = 0\<rparr>))"

text \<open>The statement text, the bound parameters and the filter echo that \<open>Fits\<close> has
  built when it calls the store.\<close>

definition Fits_query :: "Global \<Rightarrow> Values \<Rightarrow> builder" where
  "Fits_query G form =
    (case group_loop G (form ''group'')
            (item_facet G (form ''item'')
               (ship_facet G (Get form ''ship'') (base_select, [], Map.empty))) of
       (sb, args, flt) \<Rightarrow> (sb @ order_limit, args, flt))"

subsection \<open>The rows and their classification\<close>

text \<open>
  A row of \<open>ret.Fits\<close>. The columns \<open>HiRaw\<close>, \<open>MedRaw\<close> and \<open>LowRaw\<close> are bytes that
  web.go only hands to \<open>json.Unmarshal\<close> with a \<open>[]int32\<close> target, so each is kept as
  what that call does with it: \<open>Some ids\<close> when the target becomes \<open>ids\<close>, \<open>None\<close>
  when the call fails and leaves the target as it was.
\<close>

record fit =
  Killmail :: int
  Ship :: int32
  Name :: string
  Cost :: int
  HiRaw :: "int32 list option"
  MedRaw :: "int32 list option"
  LowRaw :: "int32 list option"
  Hi :: "Item list"
  Med :: "Item list"
  Lo :: "Item list"

record fits_ret =
  Filter :: Filter
  Fits :: "fit list"

definition Unmarshal :: "int32 list option \<Rightarrow> int32 list \<Rightarrow> int32 list" where
  "Unmarshal raw target = (case raw of None \<Rightarrow> target | Some ids \<Rightarrow> ids)"

text \<open>One of the three loops \<open>for _, v := range his\<close>, on the slice it appends to.
  The method \<open>IsCharge\<close> of \<open>Group\<close> is declared outside web.go: it is the
  parameter \<open>IsCharge\<close>, any function of the group.\<close>

fun slot_loop :: "(Group \<Rightarrow> bool) \<Rightarrow> Global \<Rightarrow> int32 list \<Rightarrow> Item list \<Rightarrow> Item list" where
  "slot_loop IsCharge G [] out = out"
| "slot_loop IsCharge G (v # vs) out =
    (let item = Items_at G v in
     if IsCharge (Groups_at G (Group item)) then slot_loop IsCharge G vs out
     else slot_loop IsCharge G vs (out @ [item]))"

text \<open>The loop over \<open>ret.Fits\<close>; \<open>his\<close>, \<open>meds\<close> and \<open>los\<close> are declared before it
  and live across its iterations.\<close>

fun fits_loop ::
  "(Group \<Rightarrow> bool) \<Rightarrow> Global \<Rightarrow> fit list \<Rightarrow> int32 list \<times> int32 list \<times> int32 list \<Rightarrow> fit list" where
  "fits_loop IsCharge G [] st = []"
| "fits_loop IsCharge G (f # fs) (his, meds, los) =
    (let his' = Unmarshal (HiRaw f) his;
         meds' = Unmarshal (MedRaw f) meds;
         los' = Unmarshal (LowRaw f) los
     in f\<lparr>Name := Item.Name (Items_at G (Ship f)),
          Hi := slot_loop IsCharge G his' (Hi f),
          Med := slot_loop IsCharge G meds' (Med f),
          Lo := slot_loop IsCharge G los' (Lo f)\<rparr>
        # fits_loop IsCharge G fs (his', meds', los'))"

text \<open>The slices \<open>his\<close>, \<open>meds\<close> and \<open>los\<close> as the loop leaves them after the given
  rows: what an iteration finds in them when a column of its row does not decode.\<close>

fun carried ::
  "fit list \<Rightarrow> int32 list \<times> int32 list \<times> int32 list
    \<Rightarrow> int32 list \<times> int32 list \<times> int32 list" where
  "carried [] st = st"
| "carried (f # fs) (his, meds, los) =
     carried fs (Unmarshal (HiRaw f) his, Unmarshal (MedRaw f) meds, Unmarshal (LowRaw f) los)"

text \<open>\<open>Fits\<close>. The store is the parameter \<open>SelectContext\<close>: what \<open>s.X.SelectContext\<close>
  leaves in \<open>ret.Fits\<close> and the error it returns, for a statement text and its
  parameters. The result is \<open>(ret, err)\<close>.\<close>

definition Fits ::
  "(Group \<Rightarrow> bool) \<Rightarrow> Global \<Rightarrow> (string \<Rightarrow> arg list \<Rightarrow> fit list \<times> error option) \<Rightarrow> Values
    \<Rightarrow> fits_ret \<times> error option" where
  "Fits IsCharge G SelectContext form =
    (case Fits_query G form of (sb, args, flt) \<Rightarrow>
       case SelectContext sb args of (rows, err) \<Rightarrow>
         (\<lparr>Filter = flt, Fits = fits_loop IsCharge G rows ([], [], [])\<rparr>, err))"

section \<open>Fit\<close>

text \<open>
  The types \<open>KM\<close>, \<open>Zkb\<close> and \<open>ItemCharge\<close> and the method \<open>km.Items\<close> are declared
  outside web.go: they are the type variables \<open>'km\<close>, \<open>'zkb\<close> and \<open>'slots\<close> (one
  \<open>[8]ItemCharge\<close>) and the fields of \<open>fit_deps\<close>, next to the store's answer to
  \<open>QueryRowContext(...).Scan\<close> and the two \<open>json.Unmarshal\<close> calls.
\<close>

record ('km, 'zkb, 'slots) fit_deps =
  QueryRow :: "string \<Rightarrow> arg list \<Rightarrow> error + (int32 \<times> string \<times> string)"
  Unmarshal_KM :: "string \<Rightarrow> 'km \<times> error option"
  Unmarshal_Zkb :: "string \<Rightarrow> 'zkb"
  ShipTypeId :: "'km \<Rightarrow> int32"
  KM_Items :: "Global \<Rightarrow> 'km \<Rightarrow> 'slots \<times> 'slots \<times> 'slots \<times> 'slots \<times> 'slots"

record ('zkb, 'slots) fit_ret =
  Killmail :: int32
  Zkb :: 'zkb
  Ship :: Item
  Hi :: 'slots
  Med :: 'slots
  Low :: 'slots
  Rig :: 'slots
  Sub :: 'slots

text \<open>\<open>Fit\<close>; the argument is \<open>r.FormValue("id")\<close>, the empty string when the
  request has no \<open>id\<close>. The result is \<open>(value, err)\<close> and the list of the statements
  sent to the store, each with its parameters.\<close>

definition Fit ::
  "('km, 'zkb, 'slots) fit_deps \<Rightarrow> Global \<Rightarrow> string
    \<Rightarrow> (('zkb, 'slots) fit_ret option \<times> error option) \<times> (string \<times> arg list) list" where
  "Fit deps G id' =
    (if id' = [] then ((None, Some (errors_New ''missing fit id'')), [])
     else
       let stmt = ''SELECT id, km, zkb from killmails where id = $1'';
           params = [arg_string id']
       in case QueryRow deps stmt params of
            Inl err \<Rightarrow> ((None, Some err), [(stmt, params)])
          | Inr (kmid, rawKM, rawZKB) \<Rightarrow>
              (case Unmarshal_KM deps rawKM of (km, err) \<Rightarrow>
                 case KM_Items deps G km of (hi, med, low, rig, sub) \<Rightarrow>
                   ((Some \<lparr>fit_ret.Killmail = kmid, Zkb = Unmarshal_Zkb deps rawZKB,
                            fit_ret.Ship = Items_at G (ShipTypeId deps km),
                            fit_ret.Hi = hi, fit_ret.Med = med, Low = low, Rig = rig,
                            Sub = sub\<rparr>, err),
                    [(stmt, params)])))"

section \<open>Reference results and sample data\<close>

text \<open>What the specification calls the matches of a search: every group and every
  entity whose name matches, an entity only when its category has a type tag. They are
  what the loops of \<open>Search\<close> are compared with.\<close>

definition spec_group_matches ::
  "(rune \<Rightarrow> rune) \<Rightarrow> string \<Rightarrow> string list \<Rightarrow> (int32 \<times> Group) list \<Rightarrow> Result list" where
  "spec_group_matches caseTable search flds gs =
     map (\<lambda>e. \<lparr>Type = ''group'', Name = Group.Name (snd e), ID = fst e\<rparr>)
       (filter (\<lambda>e. match search flds (ToLower caseTable (Group.Name (snd e)))) gs)"

definition spec_entity_matches ::
  "Global \<Rightarrow> string \<Rightarrow> string list \<Rightarrow> (int32 \<times> Item) list \<Rightarrow> Result list" where
  "spec_entity_matches G search flds its =
     map (\<lambda>e. \<lparr>Type = searchCategories (Category (Groups_at G (Group (snd e)))),
                Name = Item.Name (snd e), ID = fst e\<rparr>)
       (filter (\<lambda>e. match search flds (Lower (snd e))
                  \<and> searchCategories (Category (Groups_at G (Group (snd e)))) \<noteq> []) its)"

text \<open>What the entity phase adds once the list has more than 50 elements: the result
  of the first entity whose name matches, and nothing when its category has no type
  tag.\<close>

definition spec_first_entity_match ::
  "Global \<Rightarrow> string \<Rightarrow> string list \<Rightarrow> (int32 \<times> Item) list \<Rightarrow> Result list" where
  "spec_first_entity_match G search flds its =
     (case find (\<lambda>e. match search flds (Lower (snd e))) its of
        None \<Rightarrow> []
      | Some e \<Rightarrow> spec_entity_matches G search flds [e])"

definition no_catalog :: Global where
  "no_catalog = \<lparr>Items = [], Groups = []\<rparr>"

text \<open>A catalog of 59 modules named \<open>Abc\<close> in one group whose name does not match
  \<open>abc\<close>.\<close>

definition many_modules :: Global where
  "many_modules =
     \<lparr>Items = map (\<lambda>n. (of_nat n, \<lparr>Item.Name = ''Abc'', Item.ID = of_nat n, Lower = ''abc'',
                                     Group = 1\<rparr>)) [1..<60],
      Groups = [(1, \<lparr>Group.Name = ''Modules'', Group.ID = 1, Category = 7\<rparr>)]\<rparr>"

text \<open>A catalog of 51 ship groups and two ships, all named \<open>Abc\<close>.\<close>

definition crowded :: Global where
  "crowded =
     \<lparr>Items = [(1, \<lparr>Item.Name = ''Abc'', Item.ID = 1, Lower = ''abc'', Group = 1\<rparr>),
               (2, \<lparr>Item.Name = ''Abc'', Item.ID = 2, Lower = ''abc'', Group = 1\<rparr>)],
      Groups = map (\<lambda>n. (of_nat n, \<lparr>Group.Name = ''Abc'', Group.ID = of_nat n, Category = 6\<rparr>))
                 [1..<52]\<rparr>"

text \<open>The two-character string \<open>U+00E9 U+00E9\<close> in UTF-8, and a catalog with a ship
  group and a ship of that name.\<close>

definition e_acute_twice :: string where
  "e_acute_twice = [CHR 0xC3, CHR 0xA9, CHR 0xC3, CHR 0xA9]"

definition accent_catalog :: Global where
  "accent_catalog =
     \<lparr>Items = [(9, \<lparr>Item.Name = e_acute_twice, Item.ID = 9, Lower = e_acute_twice, Group = 4\<rparr>)],
      Groups = [(4, \<lparr>Group.Name = e_acute_twice, Group.ID = 4, Category = 6\<rparr>)]\<rparr>"

text \<open>A catalog with one module and one charge, and an \<open>IsCharge\<close> for it:
  category 8 is the charge category. No entity is in group 30.\<close>

definition is_charge :: "Group \<Rightarrow> bool" where
  "is_charge g = (Category g = 8)"

definition slot_catalog :: Global where
  "slot_catalog =
     \<lparr>Items = [(100, \<lparr>Item.Name = ''Railgun'', Item.ID = 100, Lower = ''railgun'', Group = 10\<rparr>),
               (200, \<lparr>Item.Name = ''Antimatter'', Item.ID = 200, Lower = ''antimatter'',
                      Group = 20\<rparr>)],
      Groups = [(10, \<lparr>Group.Name = ''Hybrid Weapon'', Group.ID = 10, Category = 7\<rparr>),
                (20, \<lparr>Group.Name = ''Hybrid Charge'', Group.ID = 20, Category = 8\<rparr>)]\<rparr>"

text \<open>A row as the store returns it, with the given high-slot identifiers.\<close>

definition stored_fit :: "int32 list \<Rightarrow> fit" where
  "stored_fit his =
     \<lparr>fit.Killmail = 1, fit.Ship = 0, fit.Name = [], Cost = 0, HiRaw = Some his,
      MedRaw = Some [], LowRaw = Some [], fit.Hi = [], fit.Med = [], Lo = []\<rparr>"

text \<open>A row whose high-slot column does not decode.\<close>

definition undecoded_fit :: fit where
  "undecoded_fit =
     \<lparr>fit.Killmail = 2, fit.Ship = 0, fit.Name = [], Cost = 0, HiRaw = None,
      MedRaw = Some [], LowRaw = Some [], fit.Hi = [], fit.Med = [], Lo = []\<rparr>"

text \<open>Three requests: one whose parameters are all unusable, one with component
  entities, one with the group 30.\<close>

definition no_facets_form :: Values where
  "no_facets_form =
     (\<lambda>k. if k = ''ship'' then [''0''] else if k = ''item'' then [''abc'', ''-4'']
          else if k = ''group'' then [[]] else [])"

definition items_form :: Values where
  "items_form = (\<lambda>k. if k = ''item'' then [''200'', ''0'', ''x'', ''200'', ''100''] else [])"

definition empty_group_form :: Values where
  "empty_group_form = (\<lambda>k. if k = ''group'' then [''30''] else [])"

section \<open>Properties of Search\<close>

lemma Contains_iff: "Contains s sub \<longleftrightarrow> (\<exists>p q. s = p @ sub @ q)"
proof (induction s)
  case Nil
  then show ?case by auto
next
  case (Cons c cs)
  have pre: "HasPrefix (c # cs) sub \<longleftrightarrow> (\<exists>q. c # cs = sub @ q)"
    unfolding HasPrefix_def by (metis append_eq_conv_conj)
  have "(\<exists>p q. c # cs = p @ sub @ q) \<longleftrightarrow>
        (\<exists>q. c # cs = sub @ q) \<or> (\<exists>p q. cs = p @ sub @ q)"
  proof
    assume "\<exists>p q. c # cs = p @ sub @ q"
    then obtain p q where pq: "c # cs = p @ sub @ q" by blast
    show "(\<exists>q. c # cs = sub @ q) \<or> (\<exists>p q. cs = p @ sub @ q)"
    proof (cases p)
      case Nil
      with pq show ?thesis by auto
    next
      case (Cons a p')
      with pq have "cs = p' @ sub @ q" by simp
      then show ?thesis by blast
    qed
  next
    assume "(\<exists>q. c # cs = sub @ q) \<or> (\<exists>p q. cs = p @ sub @ q)"
    then show "\<exists>p q. c # cs = p @ sub @ q"
    proof
      assume "\<exists>q. c # cs = sub @ q"
      then obtain q where "c # cs = [] @ sub @ q" by auto
      then show ?thesis by blast
    next
      assume "\<exists>p q. cs = p @ sub @ q"
      then obtain p q where "cs = p @ sub @ q" by blast
      then have "c # cs = (c # p) @ sub @ q" by simp
      then show ?thesis by blast
    qed
  qed
  with pre Cons.IH show ?case by simp
qed

lemma containsAll_iff: "containsAll s fs \<longleftrightarrow> (\<forall>f\<in>set fs. Contains s f)"
  by (induction fs) auto

lemma Fields_warp_core: "Fields ''warp core'' = [''warp'', ''core'']"
  by code_simp

text \<open>
  Claim C2. For a search term \<open>T\<close> and a candidate \<open>S\<close>, the closure \<open>match\<close>, as
  \<open>Search\<close> builds it (on \<open>T\<close> and \<open>strings.Fields(T)\<close>), accepts \<open>S\<close> exactly when
  \<open>T\<close> occurs in \<open>S\<close> as a contiguous substring or every field of \<open>T\<close> occurs in \<open>S\<close>
  as a substring, in whatever order and position. The term \<open>warp core\<close> matches
  \<open>warp core stabilizer\<close> and \<open>core warp booster\<close> and does not match \<open>warp\<close>.
\<close>

theorem match_two_tier:
  "(match T (Fields T) S \<longleftrightarrow>
      (\<exists>p q. S = p @ T @ q) \<or> (\<forall>f\<in>set (Fields T). \<exists>p q. S = p @ f @ q))
   \<and> match ''warp core'' (Fields ''warp core'') ''warp core stabilizer''
   \<and> match ''warp core'' (Fields ''warp core'') ''core warp booster''
   \<and> \<not> match ''warp core'' (Fields ''warp core'') ''warp''"
proof -
  have "match T (Fields T) S \<longleftrightarrow>
      (\<exists>p q. S = p @ T @ q) \<or> (\<forall>f\<in>set (Fields T). \<exists>p q. S = p @ f @ q)"
    by (simp add: match_def containsAll_iff Contains_iff)
  moreover have "match ''warp core'' (Fields ''warp core'') ''warp core stabilizer''"
    by code_simp
  moreover have "match ''warp core'' (Fields ''warp core'') ''core warp booster''"
    by code_simp
  moreover have "\<not> match ''warp core'' (Fields ''warp core'') ''warp''"
    by code_simp
  ultimately show ?thesis by blast
qed

text \<open>The two fields of \<open>warp core\<close> occur in \<open>a core, warped\<close>, out of order and
  not adjacent, and the term itself does not: the theorem gives the match.\<close>

theorem match_two_tier_witness:
  "Fields ''warp core'' = [''warp'', ''core'']
   \<and> ''a core, warped'' = ''a core, '' @ ''warp'' @ ''ed''
   \<and> ''a core, warped'' = ''a '' @ ''core'' @ '', warped''
   \<and> match ''warp core'' (Fields ''warp core'') ''a core, warped''"
proof -
  have a: "''a core, warped'' = ''a core, '' @ ''warp'' @ ''ed''" by simp
  have b: "''a core, warped'' = ''a '' @ ''core'' @ '', warped''" by simp
  have "\<forall>f\<in>set (Fields ''warp core''). \<exists>p q. ''a core, warped'' = p @ f @ q"
    unfolding Fields_warp_core using a b by (metis insert_iff empty_iff list.simps(15) empty_set)
  then have "match ''warp core'' (Fields ''warp core'') ''a core, warped''"
    using match_two_tier [of "''warp core''" "''a core, warped''"] by blast
  with Fields_warp_core a b show ?thesis by blast
qed

lemma group_scan_all:
  "group_scan caseTable search flds gs acc = acc @ spec_group_matches caseTable search flds gs"
  unfolding spec_group_matches_def by (induction gs arbitrary: acc) auto

lemma item_scan_bound:
  "\<exists>n. item_scan G search flds its acc = acc @ take n (spec_entity_matches G search flds its)
        \<and> n \<le> max 1 (51 - length acc)"
proof (induction its arbitrary: acc)
  case Nil
  show ?case by (rule exI [of _ 0]) (simp add: spec_entity_matches_def)
next
  case (Cons e its)
  obtain key item where e: "e = (key, item)" by (cases e)
  let ?tag = "searchCategories (Category (Groups_at G (Group item)))"
  let ?r = "\<lparr>Type = ?tag, Name = Item.Name item, ID = key\<rparr>"
  show ?case
  proof (cases "match search flds (Lower item)")
    case False
    with Cons.IH [of acc] e show ?thesis by (simp add: spec_entity_matches_def)
  next
    case m: True
    show ?thesis
    proof (cases "?tag = []")
      case unmapped: True
      show ?thesis
      proof (cases "length acc > 50")
        case True
        with m unmapped e show ?thesis
          by (intro exI [of _ 0]) (simp add: Let_def)
      next
        case False
        with m unmapped e Cons.IH [of acc] show ?thesis
          by (simp add: Let_def spec_entity_matches_def)
      qed
    next
      case mapped: False
      show ?thesis
      proof (cases "length (acc @ [?r]) > 50")
        case True
        with m mapped e show ?thesis
          by (intro exI [of _ 1]) (simp add: Let_def spec_entity_matches_def)
      next
        case False
        from Cons.IH [of "acc @ [?r]"] obtain n where
          n: "item_scan G search flds its (acc @ [?r]) =
               (acc @ [?r]) @ take n (spec_entity_matches G search flds its)"
          and le: "n \<le> max 1 (51 - length (acc @ [?r]))" by blast
        from False le have "Suc n \<le> max 1 (51 - length acc)" by simp
        with m mapped e False n show ?thesis
          by (intro exI [of _ "Suc n"]) (simp add: Let_def spec_entity_matches_def)
      qed
    qed
  qed
qed

lemma item_scan_exact:
  "item_scan G search flds its acc =
     acc @ (if length acc \<le> 50
            then take (51 - length acc) (spec_entity_matches G search flds its)
            else spec_first_entity_match G search flds its)"
proof (induction its arbitrary: acc)
  case Nil
  show ?case by (simp add: spec_entity_matches_def spec_first_entity_match_def)
next
  case (Cons e its)
  obtain key item where e: "e = (key, item)" by (cases e)
  let ?tag = "searchCategories (Category (Groups_at G (Group item)))"
  let ?r = "\<lparr>Type = ?tag, Name = Item.Name item, ID = key\<rparr>"
  show ?case
  proof (cases "match search flds (Lower item)")
    case False
    with Cons.IH [of acc] e show ?thesis
      by (simp add: spec_entity_matches_def spec_first_entity_match_def)
  next
    case m: True
    show ?thesis
    proof (cases "?tag = []")
      case unmapped: True
      show ?thesis
      proof (cases "length acc > 50")
        case True
        with m unmapped e show ?thesis
          by (simp add: Let_def spec_entity_matches_def spec_first_entity_match_def)
      next
        case False
        with m unmapped e Cons.IH [of acc] show ?thesis
          by (simp add: Let_def spec_entity_matches_def)
      qed
    next
      case mapped: False
      show ?thesis
      proof (cases "length (acc @ [?r]) > 50")
        case True
        show ?thesis
        proof (cases "length acc \<le> 50")
          case le: True
          with True have "51 - length acc = Suc 0" by simp
          with m mapped e True le show ?thesis
            by (simp add: Let_def spec_entity_matches_def)
        next
          case False
          with m mapped e True show ?thesis
            by (simp add: Let_def spec_entity_matches_def spec_first_entity_match_def)
        qed
      next
        case False
        then have lt: "length acc < 50" by simp
        then have "51 - length acc = Suc (51 - length (acc @ [?r]))" by simp
        with m mapped e False lt Cons.IH [of "acc @ [?r]"] show ?thesis
          by (simp add: Let_def spec_entity_matches_def)
      qed
    qed
  qed
qed

lemma take_short: "length (take k xs) < k \<Longrightarrow> take k xs = xs"
  by (cases "k \<le> length xs") auto

text \<open>
  Claim C3, as amended. In the result list of every search that returns one, the group
  matches come first and are all there, whatever their number. The entity scan stops
  when the whole list has more than 50 elements, which it tests only after an entity has
  matched: after \<open>g \<le> 50\<close> group matches the entity phase adds exactly the first
  \<open>51 - g\<close> entity matches, all of them when there are no more; after more than 50 group
  matches it adds only the result of the first entity that matches, if its category has
  a type tag. So the entity phase adds a prefix of the entity matches with at most 51
  elements, at most \<open>max 1 (51 - g)\<close>, and a list of at most 50 results is complete.
\<close>

theorem search_result_composition:
  assumes "Search caseTable G term = (Some ret, err)"
  shows "\<exists>ents n.
           Results ret
             = spec_group_matches caseTable (search_ret.Search ret)
                 (Fields (search_ret.Search ret)) (Groups G) @ ents
           \<and> ents
               = (if length (spec_group_matches caseTable (search_ret.Search ret)
                               (Fields (search_ret.Search ret)) (Groups G)) \<le> 50
                  then take (51 - length (spec_group_matches caseTable (search_ret.Search ret)
                                            (Fields (search_ret.Search ret)) (Groups G)))
                         (spec_entity_matches G (search_ret.Search ret)
                            (Fields (search_ret.Search ret)) (Items G))
                  else spec_first_entity_match G (search_ret.Search ret)
                         (Fields (search_ret.Search ret)) (Items G))
           \<and> ents = take n (spec_entity_matches G (search_ret.Search ret)
                              (Fields (search_ret.Search ret)) (Items G))
           \<and> length ents \<le> 51
           \<and> length ents
               \<le> max 1 (51 - length (spec_group_matches caseTable (search_ret.Search ret)
                                        (Fields (search_ret.Search ret)) (Groups G)))
           \<and> (length (Results ret) \<le> 50 \<longrightarrow>
                ents = spec_entity_matches G (search_ret.Search ret)
                         (Fields (search_ret.Search ret)) (Items G))"
proof -
  define s where "s = ToLower caseTable (TrimSpace term)"
  define grp where "grp = spec_group_matches caseTable s (Fields s) (Groups G)"
  define E where "E = spec_entity_matches G s (Fields s) (Items G)"
  define F where "F = spec_first_entity_match G s (Fields s) (Items G)"
  define ents where "ents = (if length grp \<le> 50 then take (51 - length grp) E else F)"
  from assms have long: "\<not> length s < 3"
    by (auto simp: Search_def Let_def s_def split: if_splits)
  with assms have ret: "ret = \<lparr>search_ret.Search = s,
      Results = item_scan G s (Fields s) (Items G)
                  (group_scan caseTable s (Fields s) (Groups G) [])\<rparr>"
    by (auto simp: Search_def Let_def s_def)
  have sr: "search_ret.Search ret = s" by (simp add: ret)
  have exact: "item_scan G s (Fields s) (Items G) grp = grp @ ents"
    unfolding ents_def E_def F_def by (rule item_scan_exact)
  obtain n where n: "item_scan G s (Fields s) (Items G) grp = grp @ take n E"
    and le: "n \<le> max 1 (51 - length grp)"
    unfolding E_def using item_scan_bound [of G s "Fields s" "Items G" grp] by blast
  from exact n have pre: "ents = take n E" by simp
  have "length (take n E) \<le> n" by simp
  with le pre have l1: "length ents \<le> max 1 (51 - length grp)" by simp
  then have l2: "length ents \<le> 51" by simp
  have res: "Results ret = grp @ ents"
    using exact by (simp add: ret group_scan_all grp_def)
  have full: "length (Results ret) \<le> 50 \<longrightarrow> ents = E"
  proof
    assume "length (Results ret) \<le> 50"
    with res have gl: "length grp + length ents \<le> 50" by simp
    then have g: "length grp \<le> 50" by simp
    then have t: "ents = take (51 - length grp) E" by (simp add: ents_def)
    from gl have "length ents < 51 - length grp" by simp
    with t have "length (take (51 - length grp) E) < 51 - length grp" by simp
    then have "take (51 - length grp) E = E" by (rule take_short)
    with t show "ents = E" by simp
  qed
  have "Results ret = grp @ ents
      \<and> ents = (if length grp \<le> 50 then take (51 - length grp) E else F)
      \<and> ents = take n E \<and> length ents \<le> 51 \<and> length ents \<le> max 1 (51 - length grp)
      \<and> (length (Results ret) \<le> 50 \<longrightarrow> ents = E)"
    using res pre l1 l2 full ents_def by blast
  then show ?thesis
    unfolding sr grp_def E_def F_def by (intro exI [of _ ents] exI [of _ n])
qed

text \<open>On \<open>many_modules\<close> no group matches \<open>abc\<close> and 59 entities do: the result is
  the first 51 of them. On \<open>crowded\<close> 51 groups match: the result is those 51 and the
  first of the two ships.\<close>

theorem search_result_composition_witness:
  "(\<exists>ret. Search id many_modules ''abc'' = (Some ret, None)
      \<and> Results ret
          = take 51 (spec_entity_matches many_modules ''abc'' [''abc''] (Items many_modules))
      \<and> length (Results ret) = 51)
   \<and> (\<exists>ret. Search id crowded ''abc'' = (Some ret, None)
      \<and> Results ret
          = spec_group_matches id ''abc'' [''abc''] (Groups crowded)
            @ [\<lparr>Type = ''ship'', Name = ''Abc'', ID = 1\<rparr>]
      \<and> length (Results ret) = 52)"
proof -
  have norm: "ToLower id (TrimSpace ''abc'') = ''abc''" by code_simp
  have flds: "Fields ''abc'' = [''abc'']" by code_simp
  have g1: "spec_group_matches id ''abc'' [''abc''] (Groups many_modules) = []"
    by code_simp
  have e1: "length (spec_entity_matches many_modules ''abc'' [''abc''] (Items many_modules))
              = 59"
    by code_simp
  have g2: "length (spec_group_matches id ''abc'' [''abc''] (Groups crowded)) = 51"
    by code_simp
  have f2: "spec_first_entity_match crowded ''abc'' [''abc''] (Items crowded)
              = [\<lparr>Type = ''ship'', Name = ''Abc'', ID = 1\<rparr>]"
    by code_simp
  have long: "\<not> length (ToLower id (TrimSpace ''abc'')) < 3" by (simp add: norm)
  define r1 where "r1 = \<lparr>search_ret.Search = ''abc'',
      Results = item_scan many_modules ''abc'' [''abc''] (Items many_modules)
                  (group_scan id ''abc'' [''abc''] (Groups many_modules) [])\<rparr>"
  define r2 where "r2 = \<lparr>search_ret.Search = ''abc'',
      Results = item_scan crowded ''abc'' [''abc''] (Items crowded)
                  (group_scan id ''abc'' [''abc''] (Groups crowded) [])\<rparr>"
  have r1: "Search id many_modules ''abc'' = (Some r1, None)"
    unfolding Search_def Let_def norm flds r1_def by simp
  have s1: "search_ret.Search r1 = ''abc''" by (simp add: r1_def)
  have r2: "Search id crowded ''abc'' = (Some r2, None)"
    unfolding Search_def Let_def norm flds r2_def by simp
  have s2: "search_ret.Search r2 = ''abc''" by (simp add: r2_def)
  from search_result_composition [OF r1] obtain ents1 where
    "Results r1 = spec_group_matches id ''abc'' [''abc''] (Groups many_modules) @ ents1"
    and "ents1
      = (if length (spec_group_matches id ''abc'' [''abc''] (Groups many_modules)) \<le> 50
         then take (51 - length (spec_group_matches id ''abc'' [''abc''] (Groups many_modules)))
                (spec_entity_matches many_modules ''abc'' [''abc''] (Items many_modules))
         else spec_first_entity_match many_modules ''abc'' [''abc''] (Items many_modules))"
    unfolding s1 flds by blast
  then have a1: "Results r1
       = take 51 (spec_entity_matches many_modules ''abc'' [''abc''] (Items many_modules))"
    unfolding g1 by simp
  then have b1: "length (Results r1) = 51" using e1 by simp
  from search_result_composition [OF r2] obtain ents2 where
    "Results r2 = spec_group_matches id ''abc'' [''abc''] (Groups crowded) @ ents2"
    and "ents2
      = (if length (spec_group_matches id ''abc'' [''abc''] (Groups crowded)) \<le> 50
         then take (51 - length (spec_group_matches id ''abc'' [''abc''] (Groups crowded)))
                (spec_entity_matches crowded ''abc'' [''abc''] (Items crowded))
         else spec_first_entity_match crowded ''abc'' [''abc''] (Items crowded))"
    unfolding s2 flds by blast
  then have a2: "Results r2
       = spec_group_matches id ''abc'' [''abc''] (Groups crowded)
         @ [\<lparr>Type = ''ship'', Name = ''Abc'', ID = 1\<rparr>]"
    unfolding g2 f2 by simp
  then have b2: "length (Results r2) = 52" using g2 by simp
  from r1 a1 b1 r2 a2 b2 show ?thesis by blast
qed

text \<open>Against claim C3 as stated: on \<open>many_modules\<close> the term \<open>abc\<close> matches no group,
  and the result list, all of it from the entity phase, has 51 elements.\<close>

theorem entity_phase_51_counterexample:
  "group_scan id ''abc'' (Fields ''abc'') (Groups many_modules) [] = []
   \<and> map_option (length \<circ> Results) (fst (Search id many_modules ''abc'')) = Some 51"
proof -
  have "group_scan id ''abc'' (Fields ''abc'') (Groups many_modules) [] = []"
    by code_simp
  moreover have
    "map_option (length \<circ> Results) (fst (Search id many_modules ''abc'')) = Some 51"
    by code_simp
  ultimately show ?thesis by blast
qed

text \<open>
  Claim C4, as amended. For every raw term whose trimmed and lowercased form is
  shorter than 3 bytes, \<open>Search\<close> returns the nil value and the nil error, whatever the
  catalog holds: no result list and no echoed term, and no error.
\<close>

theorem short_term_returns_nil:
  assumes "length (ToLower caseTable (TrimSpace term)) < 3"
  shows "Search caseTable G term = (None, None)"
  using assms by (simp add: Search_def)

theorem short_term_returns_nil_witness:
  "ToLower id (TrimSpace '' Ab '') = ''ab'' \<and> Search id many_modules '' Ab '' = (None, None)"
proof -
  have n: "ToLower id (TrimSpace '' Ab '') = ''ab''" by code_simp
  then have "length (ToLower id (TrimSpace '' Ab '')) < 3" by simp
  then have "Search id many_modules '' Ab '' = (None, None)"
    by (rule short_term_returns_nil)
  with n show ?thesis by blast
qed

text \<open>Against claim C4 as stated: for the term \<open>ab\<close> the value returned is not a
  result with the echoed term and an empty result list.\<close>

theorem short_term_echo_counterexample:
  "fst (Search id no_catalog ''ab'') \<noteq> Some \<lparr>search_ret.Search = ''ab'', Results = []\<rparr>"
  by code_simp

lemma e_acute_twice_runes: "map fst (runes e_acute_twice) = [0xE9, 0xE9]"
  by (simp add: e_acute_twice_def DecodeRune_def is_cont_def)

lemma e_acute_twice_normal:
  "caseTable 0xE9 = 0xE9 \<Longrightarrow> ToLower caseTable (TrimSpace e_acute_twice) = e_acute_twice"
  by (simp add: e_acute_twice_def ToLower_def TrimSpace_def DecodeRune_def IsSpace_def
      rune_is_space_def unicode_ToLower_def EncodeRune_def is_cont_def char_of_def bit_0)

lemma e_acute_twice_Fields: "Fields e_acute_twice = [e_acute_twice]"
  by (simp add: e_acute_twice_def Fields_def DecodeRune_def is_cont_def IsSpace_def)

text \<open>
  Claim C10. \<open>Search\<close> rejects a term exactly when its trimmed and lowercased form has
  fewer than 3 bytes; the number of characters does not enter. With a case table that
  leaves \<open>U+00E9\<close> alone (it is a lowercase letter), the term made of two such
  characters, 4 bytes in UTF-8, is not rejected: \<open>Search\<close> returns the term and the
  outcome of the two scans of the catalog.
\<close>

theorem minimum_counts_bytes:
  assumes "caseTable 0xE9 = 0xE9"
  shows "(fst (Search caseTable G term) = None
            \<longleftrightarrow> length (ToLower caseTable (TrimSpace term)) < 3)
         \<and> map fst (runes e_acute_twice) = [0xE9, 0xE9]
         \<and> length e_acute_twice = 4
         \<and> Search caseTable G e_acute_twice
             = (Some \<lparr>search_ret.Search = e_acute_twice,
                      Results = item_scan G e_acute_twice [e_acute_twice] (Items G)
                                  (group_scan caseTable e_acute_twice [e_acute_twice]
                                     (Groups G) [])\<rparr>,
                None)"
proof -
  have "fst (Search caseTable G term) = None
            \<longleftrightarrow> length (ToLower caseTable (TrimSpace term)) < 3"
    by (simp add: Search_def Let_def)
  moreover have "length e_acute_twice = 4" by (simp add: e_acute_twice_def)
  moreover have "Search caseTable G e_acute_twice
             = (Some \<lparr>search_ret.Search = e_acute_twice,
                      Results = item_scan G e_acute_twice [e_acute_twice] (Items G)
                                  (group_scan caseTable e_acute_twice [e_acute_twice]
                                     (Groups G) [])\<rparr>,
                None)"
    using e_acute_twice_normal [of caseTable] assms
    by (simp add: Search_def Let_def e_acute_twice_Fields) (simp add: e_acute_twice_def)
  ultimately show ?thesis using e_acute_twice_runes by blast
qed

theorem minimum_counts_bytes_witness:
  "id (0xE9 :: rune) = 0xE9
   \<and> Search id accent_catalog e_acute_twice
       = (Some \<lparr>search_ret.Search = e_acute_twice,
                Results = [\<lparr>Type = ''group'', Name = e_acute_twice, ID = 4\<rparr>,
                           \<lparr>Type = ''ship'', Name = e_acute_twice, ID = 9\<rparr>]\<rparr>,
          None)"
proof -
  have h: "id (0xE9 :: rune) = 0xE9" by simp
  have scans:
    "item_scan accent_catalog e_acute_twice [e_acute_twice] (Items accent_catalog)
       (group_scan id e_acute_twice [e_acute_twice] (Groups accent_catalog) [])
     = [\<lparr>Type = ''group'', Name = e_acute_twice, ID = 4\<rparr>,
        \<lparr>Type = ''ship'', Name = e_acute_twice, ID = 9\<rparr>]"
    by code_simp
  from minimum_counts_bytes [of id accent_catalog] h have
    "Search id accent_catalog e_acute_twice
       = (Some \<lparr>search_ret.Search = e_acute_twice,
                Results = item_scan accent_catalog e_acute_twice [e_acute_twice]
                            (Items accent_catalog)
                            (group_scan id e_acute_twice [e_acute_twice]
                               (Groups accent_catalog) [])\<rparr>,
          None)"
    by blast
  with scans h show ?thesis by simp
qed

section \<open>Properties of Fit\<close>

text \<open>
  Claim C9. When the request carries no configuration identifier, \<open>Fit\<close> returns no
  value and the error \<open>missing fit id\<close>, and it has sent no statement to the store,
  whatever the store and the catalog are.
\<close>

theorem fit_missing_id:
  "Fit deps G [] = ((None, Some (errors_New ''missing fit id'')), [])"
  by (simp add: Fit_def)

section \<open>Properties of Fits: the statement built\<close>

lemma fold_Filter_append:
  "fold (\<lambda>n f. Filter_append f k (h n)) ns flt =
     (if ns = [] then flt
      else flt(k \<mapsto> (case flt k of None \<Rightarrow> [] | Some xs \<Rightarrow> xs) @ map h ns))"
  by (induction ns arbitrary: flt) (auto simp: Filter_append_def)

lemma item_loop_eq:
  "item_loop G vs (items, flt) =
     (items @ filter (\<lambda>n. 0 < n) (map Atoi vs),
      fold (\<lambda>n f. Filter_append f ''item'' (Items_at G (word_of_int n)))
        (filter (\<lambda>n. 0 < n) (map Atoi vs)) flt)"
  by (induction vs arbitrary: items flt) (auto simp: Let_def)

lemma item_loop_none: "\<forall>v\<in>set vs. Atoi v \<le> 0 \<Longrightarrow> item_loop G vs st = st"
  by (induction vs arbitrary: st) (auto simp: Let_def)

lemma group_loop_none: "\<forall>v\<in>set vs. Atoi v \<le> 0 \<Longrightarrow> group_loop G vs st = st"
  by (induction vs arbitrary: st) (auto simp: Let_def)

lemma member_loop_none:
  "\<forall>e\<in>set its. Group (snd e) \<noteq> gid \<Longrightarrow> member_loop gid its st = st"
proof (induction its arbitrary: st)
  case Nil
  then show ?case by simp
next
  case (Cons e its)
  obtain key item where e: "e = (key, item)" by (cases e)
  obtain sb args or' where st: "st = (sb, args, or')" by (cases st)
  from Cons show ?case by (simp add: e st)
qed

lemma group_loop_append:
  "group_loop G (xs @ ys) st = group_loop G ys (group_loop G xs st)"
proof (induction xs arbitrary: st)
  case Nil
  then show ?case by simp
next
  case (Cons x xs)
  obtain sb args flt where st: "st = (sb, args, flt)" by (cases st)
  from Cons show ?case by (simp add: st Let_def)
qed

lemma Fits_error_from_store:
  "snd (Fits IsCharge G SelectContext form) =
     snd (SelectContext (fst (Fits_query G form)) (fst (snd (Fits_query G form))))"
  by (simp add: Fits_def split: prod.split)

text \<open>
  Claim C1. Take a value \<open>v\<close> of the \<open>group\<close> parameter that is a positive number,
  naming a group no entity of the catalog belongs to. Whatever precedes it (the ship
  and item facets, the group values \<open>vs1\<close>) and whatever follows it (\<open>vs2\<close>), the
  builder writes for it the clause \<open>AND ()\<close>, a disjunction with no disjunct, binds no
  parameter, and echoes the group.
\<close>

theorem empty_group_clause:
  assumes "0 < Atoi v"
    and "\<forall>e\<in>set (Items G). Group (snd e) \<noteq> word_of_int (Atoi v)"
  shows "group_loop G (vs1 @ v # vs2) st =
           group_loop G vs2
             (case group_loop G vs1 st of
                (sb, args, flt) \<Rightarrow>
                  (sb @ '' AND ()'', args,
                   Filter_append flt ''group''
                     \<lparr>Item.Name = Group.Name (Groups_at G (word_of_int (Atoi v))),
                      Item.ID = Group.ID (Groups_at G (word_of_int (Atoi v))),
                      Lower = [], Group = 0\<rparr>))"
proof -
  obtain sb args flt where st: "group_loop G vs1 st = (sb, args, flt)"
    by (cases "group_loop G vs1 st")
  have "group_loop G (vs1 @ v # vs2) st = group_loop G (v # vs2) (sb, args, flt)"
    by (simp add: group_loop_append st)
  then show ?thesis
    using assms by (simp add: st Let_def member_loop_none)
qed

text \<open>The request \<open>group=30\<close> on \<open>slot_catalog\<close>: the statement sent to the store is
  the base statement, \<open>AND ()\<close>, and the ordering and limit, with no parameter.\<close>

theorem empty_group_clause_witness:
  "Atoi ''30'' = 30
   \<and> fst (Fits_query slot_catalog empty_group_form) = base_select @ '' AND ()'' @ order_limit
   \<and> fst (snd (Fits_query slot_catalog empty_group_form)) = []"
proof -
  have n: "Atoi ''30'' = 30" by code_simp
  then have h1: "0 < Atoi ''30''" by simp
  have h2: "\<forall>e\<in>set (Items slot_catalog). Group (snd e) \<noteq> word_of_int (Atoi ''30'')"
    unfolding n by (simp add: slot_catalog_def)
  have "group_loop slot_catalog ([] @ ''30'' # []) (base_select, [], Map.empty)
          = (base_select @ '' AND ()'', [],
             Filter_append Map.empty ''group''
               \<lparr>Item.Name = Group.Name (Groups_at slot_catalog (word_of_int (Atoi ''30''))),
                Item.ID = Group.ID (Groups_at slot_catalog (word_of_int (Atoi ''30''))),
                Lower = [], Group = 0\<rparr>)"
    using empty_group_clause [OF h1 h2, of "[]" "[]" "(base_select, [], Map.empty)"]
    by simp
  then have "fst (Fits_query slot_catalog empty_group_form)
               = base_select @ '' AND ()'' @ order_limit
           \<and> fst (snd (Fits_query slot_catalog empty_group_form)) = []"
    by (simp add: Fits_query_def empty_group_form_def ship_facet_def item_facet_def Get_def
        Atoi_def)
  with n show ?thesis by blast
qed

text \<open>
  Claim C5. When the \<open>ship\<close> parameter is not a positive number and no \<open>item\<close> or
  \<open>group\<close> value is one, the statement built is the base statement followed directly
  by the ordering on \<open>killmail\<close> descending and the limit 100, with no parameter and an
  empty filter echo; \<open>Fits\<close> sends exactly that to the store.
\<close>

theorem no_facets_base_query:
  assumes "Atoi (Get form ''ship'') \<le> 0"
    and "\<forall>v\<in>set (form ''item''). Atoi v \<le> 0"
    and "\<forall>v\<in>set (form ''group''). Atoi v \<le> 0"
  shows "Fits_query G form = (base_select @ order_limit, [], Map.empty)
       \<and> Fits IsCharge G SelectContext form =
           (\<lparr>Filter = Map.empty,
             Fits = fits_loop IsCharge G (fst (SelectContext (base_select @ order_limit) []))
                      ([], [], [])\<rparr>,
            snd (SelectContext (base_select @ order_limit) []))"
proof -
  have q: "Fits_query G form = (base_select @ order_limit, [], Map.empty)"
    using assms
    by (simp add: Fits_query_def ship_facet_def item_facet_def item_loop_none group_loop_none)
  then show ?thesis by (simp add: Fits_def split: prod.split)
qed

theorem no_facets_base_query_witness:
  "Atoi ''0'' = 0 \<and> Atoi ''abc'' = 0 \<and> Atoi ''-4'' = - 4 \<and> Atoi [] = 0
   \<and> Fits_query slot_catalog no_facets_form = (base_select @ order_limit, [], Map.empty)"
proof -
  have a: "Atoi ''0'' = 0" "Atoi ''abc'' = 0" "Atoi ''-4'' = - 4" "Atoi [] = 0"
    by code_simp+
  have h1: "Atoi (Get no_facets_form ''ship'') \<le> 0"
    by (simp add: Get_def no_facets_form_def a)
  have h2: "\<forall>v\<in>set (no_facets_form ''item''). Atoi v \<le> 0"
    by (simp add: no_facets_form_def a)
  have h3: "\<forall>v\<in>set (no_facets_form ''group''). Atoi v \<le> 0"
    by (simp add: no_facets_form_def a)
  have "Fits_query slot_catalog no_facets_form = (base_select @ order_limit, [], Map.empty)"
    using no_facets_base_query [OF h1 h2 h3] by blast
  with a show ?thesis by blast
qed

text \<open>
  Claim C8, as amended. When the \<open>item\<close> parameter has at least one positive number
  among its values, the builder adds one clause, an array containment test on one new
  parameter, and binds to it the array of all those numbers, in the order given and with
  duplicates kept; and it appends to the filter echo under \<open>item\<close> the catalog record
  of each of them, one by one, in the same order.
\<close>

theorem component_facet_clause:
  assumes "ids = filter (\<lambda>n. 0 < n) (map Atoi vs)" and "ids \<noteq> []"
  shows "item_facet G vs (sb, args, flt) =
     (sb @ '' AND items @> array_to_json($'' @ itoa (Suc (length args)) @ ''::int[])'',
      args @ [arg_int_array ids],
      flt(''item'' \<mapsto> (case flt ''item'' of None \<Rightarrow> [] | Some xs \<Rightarrow> xs)
                        @ map (\<lambda>n. Items_at G (word_of_int n)) ids))"
  using assms by (simp add: item_facet_def item_loop_eq fold_Filter_append Let_def)

theorem component_facet_clause_witness:
  "filter (\<lambda>n. 0 < n) (map Atoi (items_form ''item'')) = [200, 200, 100]
   \<and> fst (item_facet slot_catalog (items_form ''item'') (base_select, [], Map.empty))
       = base_select @ '' AND items @> array_to_json($1::int[])''
   \<and> fst (snd (item_facet slot_catalog (items_form ''item'') (base_select, [], Map.empty)))
       = [arg_int_array [200, 200, 100]]
   \<and> snd (snd (item_facet slot_catalog (items_form ''item'') (base_select, [], Map.empty)))
         ''item''
       = Some [Items_at slot_catalog 200, Items_at slot_catalog 200, Items_at slot_catalog 100]"
proof -
  have ids: "filter (\<lambda>n. 0 < n) (map Atoi (items_form ''item'')) = [200, 200, 100]"
    by code_simp
  have one: "itoa (Suc 0) = ''1''" by code_simp
  have "item_facet slot_catalog (items_form ''item'') (base_select, [], Map.empty) =
     (base_select @ '' AND items @> array_to_json($'' @ itoa (Suc (length ([] :: arg list)))
        @ ''::int[])'',
      [] @ [arg_int_array [200, 200, 100]],
      Map.empty(''item'' \<mapsto> (case Map.empty ''item'' of None \<Rightarrow> [] | Some xs \<Rightarrow> xs)
                        @ map (\<lambda>n. Items_at slot_catalog (word_of_int n)) [200, 200, 100]))"
    by (rule component_facet_clause) (simp_all add: ids)
  with ids one show ?thesis by simp
qed

text \<open>Against claim C8 as stated: after the request with the items 200, 200 and 100
  the filter echo has three records under \<open>item\<close>.\<close>

theorem component_echo_counterexample:
  "snd (snd (Fits_query slot_catalog items_form)) ''item''
     = Some [\<lparr>Item.Name = ''Antimatter'', Item.ID = 200, Lower = ''antimatter'', Group = 20\<rparr>,
             \<lparr>Item.Name = ''Antimatter'', Item.ID = 200, Lower = ''antimatter'', Group = 20\<rparr>,
             \<lparr>Item.Name = ''Railgun'', Item.ID = 100, Lower = ''railgun'', Group = 10\<rparr>]"
  by code_simp

section \<open>Properties of Fits: the classification of the rows\<close>

lemma slot_loop_eq:
  "slot_loop IsCharge G ids out =
     out @ filter (\<lambda>item. \<not> IsCharge (Groups_at G (Group item))) (map (Items_at G) ids)"
  by (induction ids arbitrary: out) (auto simp: Let_def)

lemma Items_at_missing: "map_of (Items G) v = None \<Longrightarrow> Items_at G v = zero_Item"
  by (simp add: Items_at_def)

lemma fits_loop_nth:
  assumes "i < length rows"
  shows "fits_loop IsCharge G rows st ! i =
     (rows ! i)\<lparr>fit.Name := Item.Name (Items_at G (fit.Ship (rows ! i))),
       fit.Hi := slot_loop IsCharge G
          (Unmarshal (HiRaw (rows ! i)) (fst (carried (take i rows) st)))
          (fit.Hi (rows ! i)),
       fit.Med := slot_loop IsCharge G
          (Unmarshal (MedRaw (rows ! i)) (fst (snd (carried (take i rows) st))))
          (fit.Med (rows ! i)),
       Lo := slot_loop IsCharge G
          (Unmarshal (LowRaw (rows ! i)) (snd (snd (carried (take i rows) st))))
          (Lo (rows ! i))\<rparr>"
  using assms
proof (induction rows arbitrary: i st)
  case Nil
  then show ?case by simp
next
  case (Cons f fs)
  obtain h m l where st: "st = (h, m, l)" by (cases st)
  show ?case
  proof (cases i)
    case 0
    then show ?thesis by (simp add: st Let_def)
  next
    case (Suc j)
    with Cons.prems Cons.IH [of j] show ?thesis
      by (simp add: st Let_def)
  qed
qed

text \<open>
  Claim C6. For every row the store returns, each of the three slot lists of the
  classified row is the row's own list (empty as the store returns it) followed by the
  catalog records of the slot's identifiers, in order, without those whose group is
  consumable. The identifiers of a slot are the ones its column decodes to, whatever
  the other two columns hold; when the column does not decode, they are the ones the
  slice still holds from the rows before (\<open>carried\<close>), and the same rule is applied to
  them.
\<close>

theorem classifier_drops_consumables:
  assumes "i < length rows"
  shows "fit.Hi (fits_loop IsCharge G rows st ! i) =
           fit.Hi (rows ! i)
           @ filter (\<lambda>item. \<not> IsCharge (Groups_at G (Group item)))
               (map (Items_at G)
                  (case HiRaw (rows ! i) of
                     Some his \<Rightarrow> his
                   | None \<Rightarrow> fst (carried (take i rows) st)))
       \<and> fit.Med (fits_loop IsCharge G rows st ! i) =
           fit.Med (rows ! i)
           @ filter (\<lambda>item. \<not> IsCharge (Groups_at G (Group item)))
               (map (Items_at G)
                  (case MedRaw (rows ! i) of
                     Some meds \<Rightarrow> meds
                   | None \<Rightarrow> fst (snd (carried (take i rows) st))))
       \<and> Lo (fits_loop IsCharge G rows st ! i) =
           Lo (rows ! i)
           @ filter (\<lambda>item. \<not> IsCharge (Groups_at G (Group item)))
               (map (Items_at G)
                  (case LowRaw (rows ! i) of
                     Some los \<Rightarrow> los
                   | None \<Rightarrow> snd (snd (carried (take i rows) st))))"
  by (simp add: fits_loop_nth [OF assms] slot_loop_eq Unmarshal_def split: option.split)

text \<open>The high slots \<open>[100, 200]\<close> on \<open>slot_catalog\<close>, where the group of entity 200
  is consumable: only entity 100 is listed. A second row whose high-slot column does
  not decode is listed with the same entity, from the identifiers of the first.\<close>

theorem classifier_drops_consumables_witness:
  "is_charge (Groups_at slot_catalog (Group (Items_at slot_catalog 200)))
   \<and> fit.Hi (fits_loop is_charge slot_catalog [stored_fit [100, 200], undecoded_fit]
               ([], [], []) ! 0)
       = [\<lparr>Item.Name = ''Railgun'', Item.ID = 100, Lower = ''railgun'', Group = 10\<rparr>]
   \<and> HiRaw undecoded_fit = None
   \<and> fit.Hi (fits_loop is_charge slot_catalog [stored_fit [100, 200], undecoded_fit]
               ([], [], []) ! 1)
       = [\<lparr>Item.Name = ''Railgun'', Item.ID = 100, Lower = ''railgun'', Group = 10\<rparr>]"
proof -
  let ?rows = "[stored_fit [100, 200], undecoded_fit]"
  have c: "is_charge (Groups_at slot_catalog (Group (Items_at slot_catalog 200)))"
    by code_simp
  have keep: "filter (\<lambda>item. \<not> is_charge (Groups_at slot_catalog (Group item)))
                (map (Items_at slot_catalog) [100, 200])
              = [\<lparr>Item.Name = ''Railgun'', Item.ID = 100, Lower = ''railgun'', Group = 10\<rparr>]"
    by code_simp
  have u: "HiRaw undecoded_fit = None" by (simp add: undecoded_fit_def)
  have i0: "0 < length ?rows" and i1: "1 < length ?rows" by simp_all
  have "fit.Hi (fits_loop is_charge slot_catalog ?rows ([], [], []) ! 0) =
           filter (\<lambda>item. \<not> is_charge (Groups_at slot_catalog (Group item)))
               (map (Items_at slot_catalog) [100, 200])"
    using classifier_drops_consumables [OF i0, of is_charge slot_catalog "([], [], [])"]
    by (simp add: stored_fit_def)
  moreover have "fit.Hi (fits_loop is_charge slot_catalog ?rows ([], [], []) ! 1) =
           filter (\<lambda>item. \<not> is_charge (Groups_at slot_catalog (Group item)))
               (map (Items_at slot_catalog) [100, 200])"
    using classifier_drops_consumables [OF i1, of is_charge slot_catalog "([], [], [])"]
    by (simp add: stored_fit_def undecoded_fit_def Unmarshal_def)
  ultimately show ?thesis using c keep u by simp
qed

text \<open>
  Claim C7, as amended. A slot identifier that is not a key of the catalog's entities
  resolves to the zero entity (empty name, identifier 0, group 0). It is listed as that
  zero entity, in its place among the others, unless the group found under the
  identifier 0 is consumable. No error comes of it: the error \<open>Fits\<close> returns is the one
  the store returned.
\<close>

theorem unresolved_slot_identifier:
  assumes "map_of (Items G) v = None"
  shows "slot_loop IsCharge G (xs @ v # ys) out =
           slot_loop IsCharge G xs out
           @ (if IsCharge (Groups_at G 0) then [] else [zero_Item])
           @ slot_loop IsCharge G ys []
       \<and> snd (Fits IsCharge G SelectContext form) =
           snd (SelectContext (fst (Fits_query G form)) (fst (snd (Fits_query G form))))"
proof -
  have "Group zero_Item = 0" by (simp add: zero_Item_def)
  then have "slot_loop IsCharge G (xs @ v # ys) out =
           slot_loop IsCharge G xs out
           @ (if IsCharge (Groups_at G 0) then [] else [zero_Item])
           @ slot_loop IsCharge G ys []"
    by (simp add: slot_loop_eq Items_at_missing [OF assms])
  with Fits_error_from_store show ?thesis by blast
qed

theorem unresolved_slot_identifier_witness:
  "map_of (Items slot_catalog) 7 = None
   \<and> slot_loop is_charge slot_catalog [100, 7, 100] []
       = [\<lparr>Item.Name = ''Railgun'', Item.ID = 100, Lower = ''railgun'', Group = 10\<rparr>,
          \<lparr>Item.Name = [], Item.ID = 0, Lower = [], Group = 0\<rparr>,
          \<lparr>Item.Name = ''Railgun'', Item.ID = 100, Lower = ''railgun'', Group = 10\<rparr>]"
proof -
  have h: "map_of (Items slot_catalog) 7 = None" by code_simp
  have parts:
    "slot_loop is_charge slot_catalog [100] []
       @ (if is_charge (Groups_at slot_catalog 0) then [] else [zero_Item])
       @ slot_loop is_charge slot_catalog [100] []
     = [\<lparr>Item.Name = ''Railgun'', Item.ID = 100, Lower = ''railgun'', Group = 10\<rparr>,
        \<lparr>Item.Name = [], Item.ID = 0, Lower = [], Group = 0\<rparr>,
        \<lparr>Item.Name = ''Railgun'', Item.ID = 100, Lower = ''railgun'', Group = 10\<rparr>]"
    by code_simp
  have "slot_loop is_charge slot_catalog ([100] @ 7 # [100]) [] =
          slot_loop is_charge slot_catalog [100] []
          @ (if is_charge (Groups_at slot_catalog 0) then [] else [zero_Item])
          @ slot_loop is_charge slot_catalog [100] []"
    using unresolved_slot_identifier [OF h, of is_charge "[100]" "[100]" "[]"] by blast
  with h parts show ?thesis by simp
qed

text \<open>Against claim C7 as stated: the high-slot identifier 7 is not in \<open>slot_catalog\<close>,
  and the classified high-slot list of the row is not empty: it holds the zero
  entity.\<close>

theorem unresolved_slot_counterexample:
  "map_of (Items slot_catalog) 7 = None
   \<and> map fit.Hi (fits_loop is_charge slot_catalog [stored_fit [7]] ([], [], []))
       = [[\<lparr>Item.Name = [], Item.ID = 0, Lower = [], Group = 0\<rparr>]]"
proof -
  have "map_of (Items slot_catalog) 7 = None" by code_simp
  moreover have "map fit.Hi (fits_loop is_charge slot_catalog [stored_fit [7]] ([], [], []))
       = [[\<lparr>Item.Name = [], Item.ID = 0, Lower = [], Group = 0\<rparr>]]"
    by code_simp
  ultimately show ?thesis by blast
qed

end
